theory Spec2Isabelle
  imports Complex_Main
begin

section \<open>Data model\<close>

text \<open>
  The tables are those of \<^verbatim>\<open>db/init.sql\<close>; a row is a record, a table is the list of its
  rows in insertion order. Columns that the API server never reads or writes and that no
  property below mentions (uuid, os, capacity attributes, location, ...) are left out.
  Timestamps are seconds on one clock; \<^verbatim>\<open>NOW()\<close> is an argument of every operation.
\<close>

type_synonym timestamp = nat

datatype alert_severity = Critical | Warning | Info

datatype server_status = Online | Offline | Maintenance | Degraded

datatype user_role = Admin | Operator | Viewer

record server =
  s_id :: int
  s_name :: string
  ip_address :: string
  status :: server_status
  last_checked :: "timestamp option"
  last_restart :: "timestamp option"
  restart_requested_by :: "int option"
  s_updated_at :: timestamp

record container =
  c_id :: int
  c_name :: string
  c_server_id :: "int option"

record alert =
  a_id :: int
  server_id :: "int option"
  container_id :: "int option"
  severity :: alert_severity
  source :: "string option"
  message :: string
  details :: "string option"
  acknowledged :: bool
  acknowledged_by :: "int option"
  acknowledged_at :: "timestamp option"
  resolved :: bool
  resolved_by :: "int option"
  resolved_at :: "timestamp option"
  created_at :: timestamp
  updated_at :: timestamp

text \<open>
  The store behind \<^verbatim>\<open>pool\<close>: the three tables the handlers query, and the sequence that
  numbers the alerts (\<^verbatim>\<open>id SERIAL\<close>).
\<close>

record store =
  servers :: "server list"
  containers :: "container list"
  alerts :: "alert list"
  alerts_id_seq :: int

text \<open>The payload of a verified token, \<^verbatim>\<open>req.user\<close>.\<close>

record user =
  u_id :: int
  role :: user_role

text \<open>
  What the \<^verbatim>\<open>Authorization\<close> header amounts to: absent, a token that \<^verbatim>\<open>jwt.verify\<close>
  rejects, or a token that it decodes to a user.
\<close>

datatype credentials = NoToken | InvalidToken | ValidToken user

record alert_counts =
  critical :: nat
  warning :: nat
  info :: nat

text \<open>
  The trailing-hour averages of \<^verbatim>\<open>server_metrics\<close>, as the strings \<^verbatim>\<open>toFixed(1)\<close> gives.
  The averaging and the formatting are decimal and floating-point arithmetic; they are an
  argument of the summary handler.
\<close>

record resources =
  cpu :: string
  memory :: string
  storage :: string

record summary =
  totalServers :: nat
  totalContainers :: nat
  uptime :: rat
  summary_alerts :: alert_counts
  summary_resources :: resources
  lastUpdated :: timestamp

datatype body = SummaryJson summary | SuccessJson | ErrorJson string

datatype response = Respond nat body

text \<open>
  The cache behind \<^verbatim>\<open>redisClient\<close>: a key holds a value and the instant at which it
  expires. The values are the summaries this server stores there (\<^verbatim>\<open>JSON.stringify\<close> on the
  way in, \<^verbatim>\<open>JSON.parse\<close> on the way out).
\<close>

type_synonym cache = "string \<rightharpoonup> (summary \<times> timestamp)"

record system =
  db :: store
  redis :: cache
  activeAlerts :: alert_counts

text \<open>
  The circumstances of one request: the clock, and whether the store or the cache is
  unreachable while it runs (a \<^verbatim>\<open>pool.query\<close> or a \<^verbatim>\<open>redisClient\<close> call then rejects).
\<close>

record request_env =
  now :: timestamp
  db_fails :: bool
  redis_fails :: bool

section \<open>Authentication middleware\<close>

definition authenticate ::
  "credentials \<Rightarrow> (user \<Rightarrow> 's \<Rightarrow> response \<times> 's) \<Rightarrow> 's \<Rightarrow> response \<times> 's" where
  "authenticate cred handler sys =
     (case cred of
        NoToken \<Rightarrow> (Respond 401 (ErrorJson ''Authentication required''), sys)
      | InvalidToken \<Rightarrow> (Respond 401 (ErrorJson ''Invalid token''), sys)
      | ValidToken u \<Rightarrow> handler u sys)"

section \<open>Acknowledging an alert\<close>

text \<open>
  \<^verbatim>\<open>UPDATE alerts SET acknowledged = true, acknowledged_by = $1, acknowledged_at = NOW()
  WHERE id = $2\<close>, with the trigger \<^verbatim>\<open>update_alerts_updated_at\<close> on the rows it updates.
\<close>

definition acknowledge_row :: "timestamp \<Rightarrow> int \<Rightarrow> alert \<Rightarrow> alert" where
  "acknowledge_row t uid a =
     a\<lparr>acknowledged := True, acknowledged_by := Some uid, acknowledged_at := Some t,
       updated_at := t\<rparr>"

definition update_acknowledged :: "timestamp \<Rightarrow> int \<Rightarrow> int \<Rightarrow> store \<Rightarrow> store" where
  "update_acknowledged t uid aid st =
     st\<lparr>alerts := map (\<lambda>a. if a_id a = aid then acknowledge_row t uid a else a) (alerts st)\<rparr>"

text \<open>
  The range of the column type \<^verbatim>\<open>INTEGER\<close>, which \<^verbatim>\<open>id SERIAL\<close> and \<^verbatim>\<open>acknowledged_by\<close>
  have.
\<close>

definition int4 :: "int \<Rightarrow> bool" where
  "int4 n = (- 2147483648 \<le> n \<and> n \<le> 2147483647)"

text \<open>
  The handler of \<^verbatim>\<open>POST /api/alerts/:id/acknowledge\<close>. The path parameter is given as the
  store reads it: \<open>Some n\<close> when the text denotes the integer \<open>n\<close>, \<open>None\<close> when it denotes
  none. It is bound to the column \<^verbatim>\<open>id\<close>, and the id of the actor to \<^verbatim>\<open>acknowledged_by\<close>: the
  query rejects when the text is no integer, when either value is outside the range of the
  column type, or when the store is unreachable. Every rejection is caught and answered
  500.
\<close>

definition acknowledge_handler ::
  "request_env \<Rightarrow> int option \<Rightarrow> user \<Rightarrow> system \<Rightarrow> response \<times> system" where
  "acknowledge_handler env param u sys =
     (case param of
        None \<Rightarrow> (Respond 500 (ErrorJson ''Failed to acknowledge alert''), sys)
      | Some aid \<Rightarrow>
          if db_fails env \<or> \<not> int4 aid \<or> \<not> int4 (u_id u)
          then (Respond 500 (ErrorJson ''Failed to acknowledge alert''), sys)
          else (Respond 200 SuccessJson,
                sys\<lparr>db := update_acknowledged (now env) (u_id u) aid (db sys)\<rparr>))"

definition post_acknowledge ::
  "request_env \<Rightarrow> credentials \<Rightarrow> int option \<Rightarrow> system \<Rightarrow> response \<times> system" where
  "post_acknowledge env cred param sys = authenticate cred (acknowledge_handler env param) sys"

section \<open>The scheduled health check\<close>

text \<open>
  The job draws \<^verbatim>\<open>Math.random() > 0.1\<close> for each server it checks; the draw is an input.
  So are the instants of the two queries it issues for the server, and whether either of
  them rejects.
\<close>

record probe =
  isHealthy :: bool
  update_at :: timestamp
  update_fails :: bool
  insert_at :: timestamp
  insert_fails :: bool

text \<open>
  The circumstances of one run of the job: whether the \<^verbatim>\<open>SELECT\<close> that lists the servers
  rejects, and the probe of each server, by its id.
\<close>

record tick_env =
  select_fails :: bool
  probes :: "int \<Rightarrow> probe"

datatype job_log = HealthCheckCompleted | HealthCheckFailed

text \<open>
  \<^verbatim>\<open>SELECT id, ip_address FROM servers WHERE status = 'online'\<close>; the rows come in table
  order.
\<close>

definition select_online :: "store \<Rightarrow> (int \<times> string) list" where
  "select_online st =
     map (\<lambda>s. (s_id s, ip_address s)) (filter (\<lambda>s. status s = Online) (servers st))"

text \<open>
  \<^verbatim>\<open>UPDATE servers SET last_checked = NOW(), status = $1 WHERE id = $2\<close>, with the trigger
  \<^verbatim>\<open>update_servers_updated_at\<close>.
\<close>

definition update_server_status :: "timestamp \<Rightarrow> server_status \<Rightarrow> int \<Rightarrow> store \<Rightarrow> store" where
  "update_server_status t new_status sid st =
     st\<lparr>servers :=
          map (\<lambda>s. if s_id s = sid
                    then s\<lparr>last_checked := Some t, status := new_status, s_updated_at := t\<rparr>
                    else s)
              (servers st)\<rparr>"

text \<open>
  \<^verbatim>\<open>INSERT INTO alerts (server_id, severity, message, created_at) VALUES ($1, 'critical',
  'Server ${server.ip_address} is not responding', NOW())\<close>; the other columns take their
  defaults.
\<close>

definition insert_alert :: "timestamp \<Rightarrow> int \<Rightarrow> string \<Rightarrow> store \<Rightarrow> store" where
  "insert_alert t sid ip st =
     st\<lparr>alerts := alerts st @
          [\<lparr>a_id = alerts_id_seq st + 1, server_id = Some sid, container_id = None,
            severity = Critical, source = None,
            message = ''Server '' @ ip @ '' is not responding'', details = None,
            acknowledged = False, acknowledged_by = None, acknowledged_at = None,
            resolved = False, resolved_by = None, resolved_at = None,
            created_at = t, updated_at = t\<rparr>],
        alerts_id_seq := alerts_id_seq st + 1\<rparr>"

text \<open>
  The body of the \<^verbatim>\<open>for\<close> loop over the selected rows. A query that rejects leaves the
  loop: the \<^verbatim>\<open>try\<close> is around the whole job.
\<close>

fun check_servers :: "(int \<Rightarrow> probe) \<Rightarrow> (int \<times> string) list \<Rightarrow> store \<Rightarrow> job_log \<times> store" where
  "check_servers pr [] st = (HealthCheckCompleted, st)"
| "check_servers pr ((sid, ip) # rows) st =
     (let p = pr sid in
      if update_fails p then (HealthCheckFailed, st)
      else
        let st1 = update_server_status (update_at p)
                    (if isHealthy p then Online else Offline) sid st
        in if \<not> isHealthy p
           then (if insert_fails p then (HealthCheckFailed, st1)
                 else check_servers pr rows (insert_alert (insert_at p) sid ip st1))
           else check_servers pr rows st1)"

definition health_check_job :: "tick_env \<Rightarrow> store \<Rightarrow> job_log \<times> store" where
  "health_check_job env st =
     (if select_fails env then (HealthCheckFailed, st)
      else check_servers (probes env) (select_online st) st)"

section \<open>The dashboard summary\<close>

definition redis_get :: "cache \<Rightarrow> timestamp \<Rightarrow> string \<Rightarrow> summary option" where
  "redis_get c t k =
     (case c k of None \<Rightarrow> None | Some (v, expires) \<Rightarrow> if t < expires then Some v else None)"

definition redis_setEx :: "cache \<Rightarrow> timestamp \<Rightarrow> string \<Rightarrow> nat \<Rightarrow> summary \<Rightarrow> cache" where
  "redis_setEx c t k ttl v = c(k \<mapsto> (v, t + ttl))"

definition cacheKey :: string where
  "cacheKey = ''dashboard:summary''"

text \<open>\<^verbatim>\<open>SELECT COUNT(*) FROM servers WHERE status = 'online'\<close>\<close>

definition count_online_servers :: "store \<Rightarrow> nat" where
  "count_online_servers st = length (filter (\<lambda>s. status s = Online) (servers st))"

text \<open>\<^verbatim>\<open>SELECT COUNT(*) FROM containers\<close>\<close>

definition count_containers :: "store \<Rightarrow> nat" where
  "count_containers st = length (containers st)"

text \<open>
  \<^verbatim>\<open>SELECT severity, COUNT(*) FROM alerts WHERE acknowledged = false GROUP BY severity\<close>:
  one row for each severity that some unacknowledged alert has.
\<close>

definition alerts_by_severity :: "store \<Rightarrow> (alert_severity \<times> nat) list" where
  "alerts_by_severity st =
     (let unacked = filter (\<lambda>a. \<not> acknowledged a) (alerts st)
      in map (\<lambda>sev. (sev, length (filter (\<lambda>a. severity a = sev) unacked)))
             (remdups (map severity unacked)))"

text \<open>\<^verbatim>\<open>summary.alerts[row.severity] = parseInt(row.count)\<close>\<close>

fun set_alert_count :: "alert_counts \<Rightarrow> alert_severity \<times> nat \<Rightarrow> alert_counts" where
  "set_alert_count c (Critical, n) = c\<lparr>critical := n\<rparr>"
| "set_alert_count c (Warning, n) = c\<lparr>warning := n\<rparr>"
| "set_alert_count c (Info, n) = c\<lparr>info := n\<rparr>"

definition build_summary :: "timestamp \<Rightarrow> resources \<Rightarrow> store \<Rightarrow> summary" where
  "build_summary t res st =
     (let summary0 =
        \<lparr>totalServers = count_online_servers st,
         totalContainers = count_containers st,
         uptime = 9997 / 100,
         summary_alerts = \<lparr>critical = 0, warning = 0, info = 0\<rparr>,
         summary_resources = res,
         lastUpdated = t\<rparr>
      in summary0\<lparr>summary_alerts :=
           foldl set_alert_count (summary_alerts summary0) (alerts_by_severity st)\<rparr>)"

text \<open>The handler of \<^verbatim>\<open>GET /api/dashboard/summary\<close>.\<close>

definition summary_handler ::
  "request_env \<Rightarrow> resources \<Rightarrow> user \<Rightarrow> system \<Rightarrow> response \<times> system" where
  "summary_handler env res u sys =
     (if redis_fails env then (Respond 500 (ErrorJson ''Failed to fetch dashboard data''), sys)
      else
        case redis_get (redis sys) (now env) cacheKey of
          Some cached \<Rightarrow> (Respond 200 (SummaryJson cached), sys)
        | None \<Rightarrow>
            if db_fails env
            then (Respond 500 (ErrorJson ''Failed to fetch dashboard data''), sys)
            else
              let s = build_summary (now env) res (db sys)
              in (Respond 200 (SummaryJson s),
                  sys\<lparr>activeAlerts := summary_alerts s,
                      redis := redis_setEx (redis sys) (now env) cacheKey 30 s\<rparr>))"

definition get_dashboard_summary ::
  "request_env \<Rightarrow> credentials \<Rightarrow> resources \<Rightarrow> system \<Rightarrow> response \<times> system" where
  "get_dashboard_summary env cred res sys = authenticate cred (summary_handler env res) sys"

text \<open>
  The function \<^verbatim>\<open>get_alert_summary\<close> of \<^verbatim>\<open>db/init.sql\<close>: the three filtered counts and
  their total.
\<close>

definition get_alert_summary :: "store \<Rightarrow> nat \<times> nat \<times> nat \<times> nat" where
  "get_alert_summary st =
     (length (filter (\<lambda>a. severity a = Critical \<and> acknowledged a = False) (alerts st)),
      length (filter (\<lambda>a. severity a = Warning \<and> acknowledged a = False) (alerts st)),
      length (filter (\<lambda>a. severity a = Info \<and> acknowledged a = False) (alerts st)),
      length (filter (\<lambda>a. acknowledged a = False) (alerts st)))"

section \<open>Runs of the system\<close>

datatype api_call =
    HealthCheck tick_env
  | AcknowledgeAlert request_env credentials "int option"
  | GetSummary request_env credentials resources

fun step :: "api_call \<Rightarrow> system \<Rightarrow> system" where
  "step (HealthCheck env) sys = sys\<lparr>db := snd (health_check_job env (db sys))\<rparr>"
| "step (AcknowledgeAlert env cred param) sys = snd (post_acknowledge env cred param sys)"
| "step (GetSummary env cred res) sys = snd (get_dashboard_summary env cred res sys)"

fun run :: "api_call list \<Rightarrow> system \<Rightarrow> system" where
  "run [] sys = sys"
| "run (c # cs) sys = run cs (step c sys)"

section \<open>Predicates of the properties\<close>


definition ack_consistent :: "alert \<Rightarrow> bool" where
  "ack_consistent a = (acknowledged a = (acknowledged_at a \<noteq> None))"

section \<open>The sample data\<close>

text \<open>
  The servers and the alerts that \<^verbatim>\<open>initializeDatabase\<close> leaves in a new database, at the
  instant \<open>t\<close>: six servers, the last one offline, and three alerts. The sample metrics
  belong to a table that is not modelled.
\<close>

definition sample_server :: "timestamp \<Rightarrow> int \<Rightarrow> string \<Rightarrow> string \<Rightarrow> server_status \<Rightarrow> server" where
  "sample_server t i n ip stat =
     \<lparr>s_id = i, s_name = n, ip_address = ip, status = stat, last_checked = None,
      last_restart = None, restart_requested_by = None, s_updated_at = t\<rparr>"

definition sample_alert :: "timestamp \<Rightarrow> int \<Rightarrow> int \<Rightarrow> alert_severity \<Rightarrow> string \<Rightarrow> alert" where
  "sample_alert t i sid sev msg =
     \<lparr>a_id = i, server_id = Some sid, container_id = None, severity = sev, source = None,
      message = msg, details = None, acknowledged = False, acknowledged_by = None,
      acknowledged_at = None, resolved = False, resolved_by = None, resolved_at = None,
      created_at = t, updated_at = t\<rparr>"

definition initial_store :: "timestamp \<Rightarrow> store" where
  "initial_store t =
     \<lparr>servers =
        [sample_server t 1 ''db-prod-01'' ''10.0.1.10'' Online,
         sample_server t 2 ''web-server-01'' ''10.0.1.20'' Online,
         sample_server t 3 ''api-gateway'' ''10.0.1.30'' Online,
         sample_server t 4 ''cache-redis-01'' ''10.0.1.40'' Online,
         sample_server t 5 ''monitoring-01'' ''10.0.1.50'' Online,
         sample_server t 6 ''backup-server'' ''10.0.1.60'' Offline],
      containers = [],
      alerts =
        [sample_alert t 1 1 Critical ''Database CPU usage above 95% for 5 minutes'',
         sample_alert t 2 2 Warning ''High memory usage detected'',
         sample_alert t 3 6 Critical ''Backup server is offline''],
      alerts_id_seq = 3\<rparr>"

definition initial_system :: "timestamp \<Rightarrow> system" where
  "initial_system t =
     \<lparr>db = initial_store t, redis = Map.empty,
      activeAlerts = \<lparr>critical = 0, warning = 0, info = 0\<rparr>\<rparr>"

text \<open>
  That database has no \<^verbatim>\<open>containers\<close> table: there the count of the containers rejects,
  which is a case of \<open>db_fails\<close>. The examples of the summary run on the sample data of
  \<^verbatim>\<open>db/init.sql\<close> instead, at the instant \<open>t\<close>: six servers, the last one offline, no
  container, and four alerts with their sources and details.
\<close>

definition init_sql_alert ::
  "timestamp \<Rightarrow> int \<Rightarrow> int \<Rightarrow> alert_severity \<Rightarrow> string \<Rightarrow> string \<Rightarrow> string \<Rightarrow> alert" where
  "init_sql_alert t i sid sev src msg det =
     \<lparr>a_id = i, server_id = Some sid, container_id = None, severity = sev, source = Some src,
      message = msg, details = Some det, acknowledged = False, acknowledged_by = None,
      acknowledged_at = None, resolved = False, resolved_by = None, resolved_at = None,
      created_at = t, updated_at = t\<rparr>"

definition init_sql_store :: "timestamp \<Rightarrow> store" where
  \<open>init_sql_store t =
     \<lparr>servers =
        [sample_server t 1 ''Production DB 01'' ''10.0.1.10'' Online,
         sample_server t 2 ''Web Server 01'' ''10.0.1.20'' Online,
         sample_server t 3 ''API Gateway'' ''10.0.1.30'' Online,
         sample_server t 4 ''Redis Cache'' ''10.0.1.40'' Online,
         sample_server t 5 ''Monitoring Server'' ''10.0.1.50'' Online,
         sample_server t 6 ''Backup Server'' ''10.0.1.60'' Offline],
      containers = [],
      alerts =
        [init_sql_alert t 1 1 Critical ''prometheus'' ''Database CPU usage above 95%''
           ''{"cpu_usage": 96.5, "duration": "5m", "threshold": 90}'',
         init_sql_alert t 2 2 Warning ''node_exporter'' ''High memory usage detected''
           ''{"memory_usage": 85.2, "threshold": 80}'',
         init_sql_alert t 3 6 Critical ''ping'' ''Server is not responding''
           ''{"last_response": "5 minutes ago"}'',
         init_sql_alert t 4 3 Info ''grafana'' ''New user logged in''
           ''{"user": "admin", "ip": "10.0.0.100"}''],
      alerts_id_seq = 4\<rparr>\<close>

definition init_sql_system :: "timestamp \<Rightarrow> system" where
  "init_sql_system t =
     \<lparr>db = init_sql_store t, redis = Map.empty,
      activeAlerts = \<lparr>critical = 0, warning = 0, info = 0\<rparr>\<rparr>"

text \<open>Environments without a fault, for the examples.\<close>

definition request_at :: "timestamp \<Rightarrow> request_env" where
  "request_at t = \<lparr>now = t, db_fails = False, redis_fails = False\<rparr>"

definition probe_at :: "timestamp \<Rightarrow> bool \<Rightarrow> probe" where
  "probe_at t healthy =
     \<lparr>isHealthy = healthy, update_at = t, update_fails = False,
      insert_at = t, insert_fails = False\<rparr>"

definition all_healthy :: "timestamp \<Rightarrow> tick_env" where
  "all_healthy t = \<lparr>select_fails = False, probes = (\<lambda>i. probe_at t True)\<rparr>"

definition one_unhealthy :: "timestamp \<Rightarrow> int \<Rightarrow> tick_env" where
  "one_unhealthy t sid = \<lparr>select_fails = False, probes = (\<lambda>i. probe_at t (i \<noteq> sid))\<rparr>"

definition update_rejects :: "timestamp \<Rightarrow> int \<Rightarrow> tick_env" where
  "update_rejects t sid =
     \<lparr>select_fails = False, probes = (\<lambda>i. (probe_at t True)\<lparr>update_fails := (i = sid)\<rparr>)\<rparr>"

section \<open>The health check: what a run changes\<close>

text \<open>
  A run of the loop changes neither the rows of a server that is not in its list nor the
  alerts that refer to such a server.
\<close>

lemma alerts_update_server_status [simp]:
  "alerts (update_server_status t ns sid st) = alerts st"
  by (simp add: update_server_status_def)

lemma servers_insert_alert [simp]:
  "servers (insert_alert t sid ip st) = servers st"
  by (simp add: insert_alert_def)

lemma filter_other_update_server_status:
  "sid' \<noteq> sid \<Longrightarrow>
   filter (\<lambda>s. s_id s = sid') (servers (update_server_status t ns sid st))
   = filter (\<lambda>s. s_id s = sid') (servers st)"
proof -
  assume ne: "sid' \<noteq> sid"
  have "filter (\<lambda>s. s_id s = sid')
          (map (\<lambda>s. if s_id s = sid
                    then s\<lparr>last_checked := Some t, status := ns, s_updated_at := t\<rparr>
                    else s) xs)
        = filter (\<lambda>s. s_id s = sid') xs" for xs
    using ne by (induction xs) auto
  then show ?thesis by (simp add: update_server_status_def)
qed

lemma filter_other_insert_alert:
  "sid' \<noteq> sid \<Longrightarrow>
   filter (\<lambda>a. server_id a = Some sid' \<and> P a) (alerts (insert_alert t sid ip st))
   = filter (\<lambda>a. server_id a = Some sid' \<and> P a) (alerts st)"
  by (simp add: insert_alert_def)

lemma check_servers_other_servers:
  "sid' \<notin> fst ` set rows \<Longrightarrow>
   filter (\<lambda>s. s_id s = sid') (servers (snd (check_servers pr rows st)))
   = filter (\<lambda>s. s_id s = sid') (servers st)"
  by (induction pr rows st rule: check_servers.induct)
     (simp_all add: Let_def filter_other_update_server_status)

lemma check_servers_other_alerts:
  "sid' \<notin> fst ` set rows \<Longrightarrow>
   filter (\<lambda>a. server_id a = Some sid' \<and> P a) (alerts (snd (check_servers pr rows st)))
   = filter (\<lambda>a. server_id a = Some sid' \<and> P a) (alerts st)"
  by (induction pr rows st rule: check_servers.induct)
     (simp_all add: Let_def filter_other_insert_alert)







text \<open>
  The servers the job selects are the online ones; a server that is not selected is left
  alone.
\<close>

lemma selected_ids:
  "fst ` set (select_online st) = s_id ` {s \<in> set (servers st). status s = Online}"
  by (simp add: select_online_def image_image)

lemma distinct_select_online:
  "distinct (map s_id (servers st)) \<Longrightarrow> distinct (map fst (select_online st))"
  by (simp add: select_online_def comp_def distinct_map_filter)

lemma not_selected:
  assumes "distinct (map s_id (servers st))" and "s \<in> set (servers st)"
    and "status s \<noteq> Online"
  shows "s_id s \<notin> fst ` set (select_online st)"
proof
  assume "s_id s \<in> fst ` set (select_online st)"
  then obtain x where x: "x \<in> set (servers st)" "status x = Online" "s_id x = s_id s"
    by (auto simp: selected_ids)
  with assms(1,2) have "x = s" by (meson distinct_map inj_onD)
  with x assms(3) show False by simp
qed

lemma job_skips_unselected:
  assumes "sid \<notin> fst ` set (select_online st)"
  shows "filter (\<lambda>s. s_id s = sid) (servers (snd (health_check_job env st)))
         = filter (\<lambda>s. s_id s = sid) (servers st)"
    and "filter (\<lambda>a. server_id a = Some sid \<and> P a) (alerts (snd (health_check_job env st)))
         = filter (\<lambda>a. server_id a = Some sid \<and> P a) (alerts st)"
  using assms
  by (simp_all add: health_check_job_def check_servers_other_servers check_servers_other_alerts)

text \<open>
  A rejected query ends the loop: the rows after it are never reached.
\<close>

lemma check_servers_abort:
  assumes "update_fails (pr sid) \<or> (\<not> isHealthy (pr sid) \<and> insert_fails (pr sid))"
  shows "check_servers pr (pre @ (sid, ip) # post) st = check_servers pr (pre @ [(sid, ip)]) st"
proof (induction pre arbitrary: st)
  case Nil
  from assms show ?case by (auto simp: Let_def)
next
  case (Cons row pre)
  obtain r ip' where row: "row = (r, ip')" by (cases row)
  show ?case
    unfolding row by (simp add: Let_def Cons.IH)
qed

lemma check_servers_abort_log:
  assumes "update_fails (pr sid) \<or> (\<not> isHealthy (pr sid) \<and> insert_fails (pr sid))"
  shows "fst (check_servers pr (pre @ (sid, ip) # post) st) = HealthCheckFailed"
proof (induction pre arbitrary: st)
  case Nil
  from assms show ?case by (auto simp: Let_def)
next
  case (Cons row pre)
  obtain r ip' where row: "row = (r, ip')" by (cases row)
  show ?case
    unfolding row by (simp add: Let_def Cons.IH)
qed

subsection \<open>A failed check of a server that has an open alert\<close>




subsection \<open>Servers that are offline\<close>

text \<open>
  The job selects the servers whose status is \<open>online\<close>. A server with any other status
  is not probed: whatever the probes would say, its row is after the run what it was
  before (status and \<open>last_checked\<close> included), and so are the alerts that refer to it.
\<close>

lemma unselected_server_unchanged:
  assumes "distinct (map s_id (servers st))"
    and "s \<in> set (servers st)" and "status s \<noteq> Online"
  shows "s \<in> set (servers (snd (health_check_job env st)))
       \<and> filter (\<lambda>a. server_id a = Some (s_id s)) (alerts (snd (health_check_job env st)))
         = filter (\<lambda>a. server_id a = Some (s_id s)) (alerts st)"
proof -
  note unsel = not_selected [OF assms]
  have "s \<in> set (filter (\<lambda>x. s_id x = s_id s) (servers st))"
    using assms(2) by simp
  then have "s \<in> set (filter (\<lambda>x. s_id x = s_id s) (servers (snd (health_check_job env st))))"
    by (simp only: job_skips_unselected(1) [OF unsel])
  then show ?thesis
    using job_skips_unselected(2) [OF unsel, of "\<lambda>_. True" env] by simp
qed

text \<open>
  Claim C2 says that an offline server that the next run finds healthy is online
  afterwards, and that no alert is created for the recovery. On the sample data server 6 is
  offline and every probe of the run is healthy; the job, whose comment reads
  \<^verbatim>\<open>Check all servers\<close>, checks servers 1 to 5, and server 6 is offline afterwards, with
  \<open>last_checked\<close> unset.
\<close>

theorem offline_server_stays_offline:
  "map (\<lambda>s. (s_id s, status s, last_checked s))
     (servers (snd (health_check_job (all_healthy 300) (initial_store 0))))
   = [(1, Online, Some 300), (2, Online, Some 300), (3, Online, Some 300),
      (4, Online, Some 300), (5, Online, Some 300), (6, Offline, None)]"
  by (simp add: all_healthy_def initial_store_def sample_server_def sample_alert_def probe_at_def
      health_check_job_def select_online_def update_server_status_def insert_alert_def Let_def)

text \<open>
  A server that the loop reaches and whose status update does not reject has its rows
  written, whatever happens later in the list; when its alert insert does not reject
  either, its alerts grow by one if it is unhealthy and not at all if it is healthy.
\<close>

lemma filter_own_update_server_status:
  "filter (\<lambda>s. s_id s = sid) (servers (update_server_status t ns sid st))
   = map (\<lambda>s. s\<lparr>last_checked := Some t, status := ns, s_updated_at := t\<rparr>)
       (filter (\<lambda>s. s_id s = sid) (servers st))"
proof -
  have "filter (\<lambda>s. s_id s = sid)
          (map (\<lambda>s. if s_id s = sid
                    then s\<lparr>last_checked := Some t, status := ns, s_updated_at := t\<rparr>
                    else s) xs)
        = map (\<lambda>s. s\<lparr>last_checked := Some t, status := ns, s_updated_at := t\<rparr>)
            (filter (\<lambda>s. s_id s = sid) xs)" for xs
    by (induction xs) simp_all
  then show ?thesis by (simp add: update_server_status_def)
qed

lemma check_servers_other_alerts_all:
  "sid' \<notin> fst ` set rows \<Longrightarrow>
   filter (\<lambda>a. server_id a = Some sid') (alerts (snd (check_servers pr rows st)))
   = filter (\<lambda>a. server_id a = Some sid') (alerts st)"
  using check_servers_other_alerts [of sid' rows "\<lambda>_. True" pr st] by simp

lemma check_servers_reached_servers:
  assumes "\<forall>i \<in> fst ` set pre.
             \<not> update_fails (pr i) \<and> (\<not> isHealthy (pr i) \<longrightarrow> \<not> insert_fails (pr i))"
    and "r \<notin> fst ` set pre" and "r \<notin> fst ` set rest" and "\<not> update_fails (pr r)"
  shows "filter (\<lambda>s. s_id s = r) (servers (snd (check_servers pr (pre @ (r, ip) # rest) st)))
         = map (\<lambda>s. s\<lparr>last_checked := Some (update_at (pr r)),
                       status := (if isHealthy (pr r) then Online else Offline),
                       s_updated_at := update_at (pr r)\<rparr>)
             (filter (\<lambda>s. s_id s = r) (servers st))"
  using assms(1,2)
proof (induction pre arbitrary: st)
  case Nil
  show ?case
    by (simp add: Let_def assms(4) check_servers_other_servers [OF assms(3)]
        filter_own_update_server_status)
next
  case (Cons row pre)
  obtain q ipq where row: "row = (q, ipq)" by (cases row)
  have q: "q \<noteq> r" "\<not> update_fails (pr q)" "\<not> isHealthy (pr q) \<longrightarrow> \<not> insert_fails (pr q)"
    using Cons.prems row by auto
  have rest: "\<forall>i \<in> fst ` set pre.
             \<not> update_fails (pr i) \<and> (\<not> isHealthy (pr i) \<longrightarrow> \<not> insert_fails (pr i))"
    "r \<notin> fst ` set pre"
    using Cons.prems by auto
  show ?case
    using q
    by (simp add: row Let_def Cons.IH [OF rest] filter_other_update_server_status)
qed

lemma check_servers_reached_alerts:
  assumes "\<forall>i \<in> fst ` set pre.
             \<not> update_fails (pr i) \<and> (\<not> isHealthy (pr i) \<longrightarrow> \<not> insert_fails (pr i))"
    and "r \<notin> fst ` set pre" and "r \<notin> fst ` set rest"
    and "\<not> update_fails (pr r)" and "\<not> isHealthy (pr r) \<longrightarrow> \<not> insert_fails (pr r)"
  shows "\<exists>new. filter (\<lambda>a. server_id a = Some r)
                 (alerts (snd (check_servers pr (pre @ (r, ip) # rest) st)))
               = filter (\<lambda>a. server_id a = Some r) (alerts st) @ new
             \<and> length new = (if isHealthy (pr r) then 0 else 1)
             \<and> list_all (\<lambda>a. severity a = Critical \<and> \<not> acknowledged a) new"
  using assms(1,2)
proof (induction pre arbitrary: st)
  case Nil
  show ?case
  proof (cases "isHealthy (pr r)")
    case True
    then show ?thesis
      by (simp add: Let_def assms(4) check_servers_other_alerts_all [OF assms(3)])
  next
    case False
    with assms(5) have "\<not> insert_fails (pr r)" by simp
    with False show ?thesis
      by (simp add: Let_def assms(4) check_servers_other_alerts_all [OF assms(3)]
          insert_alert_def)
  qed
next
  case (Cons row pre)
  obtain q ipq where row: "row = (q, ipq)" by (cases row)
  have q: "q \<noteq> r" "\<not> update_fails (pr q)" "\<not> isHealthy (pr q) \<longrightarrow> \<not> insert_fails (pr q)"
    using Cons.prems row by auto
  have rest: "\<forall>i \<in> fst ` set pre.
             \<not> update_fails (pr i) \<and> (\<not> isHealthy (pr i) \<longrightarrow> \<not> insert_fails (pr i))"
    "r \<notin> fst ` set pre"
    using Cons.prems by auto
  show ?case
  proof (cases "isHealthy (pr q)")
    case True
    then show ?thesis
      using q Cons.IH [OF rest, of "update_server_status (update_at (pr q)) Online q st"]
      by (simp add: row Let_def)
  next
    case False
    let ?st' = "insert_alert (insert_at (pr q)) q ipq
                  (update_server_status (update_at (pr q)) Offline q st)"
    have same: "filter (\<lambda>a. server_id a = Some r) (alerts ?st')
                = filter (\<lambda>a. server_id a = Some r) (alerts st)"
      using q(1) by (simp add: insert_alert_def)
    from False q have step: "check_servers pr ((row # pre) @ (r, ip) # rest) st
        = check_servers pr (pre @ (r, ip) # rest) ?st'"
      by (simp add: row Let_def)
    show ?thesis
      unfolding step using Cons.IH [OF rest, of ?st'] by (simp only: same)
  qed
qed

text \<open>
  The server at which the pass ends gets no alert; when it is its status update that
  rejects, its rows are not written either.
\<close>

lemma check_servers_failing_alerts:
  assumes "update_fails (pr sid) \<or> (\<not> isHealthy (pr sid) \<and> insert_fails (pr sid))"
    and "sid \<notin> fst ` set pre"
  shows "filter (\<lambda>a. server_id a = Some sid)
           (alerts (snd (check_servers pr (pre @ [(sid, ip)]) st)))
         = filter (\<lambda>a. server_id a = Some sid) (alerts st)"
  using assms(2)
proof (induction pre arbitrary: st)
  case Nil
  from assms(1) show ?case by (auto simp: Let_def)
next
  case (Cons row pre)
  obtain q ipq where row: "row = (q, ipq)" by (cases row)
  have q: "q \<noteq> sid" and rest: "sid \<notin> fst ` set pre"
    using Cons.prems row by auto
  show ?case
    using q by (simp add: row Let_def Cons.IH [OF rest] insert_alert_def)
qed

lemma check_servers_failing_servers:
  assumes "update_fails (pr sid)" and "sid \<notin> fst ` set pre"
  shows "filter (\<lambda>s. s_id s = sid) (servers (snd (check_servers pr (pre @ [(sid, ip)]) st)))
         = filter (\<lambda>s. s_id s = sid) (servers st)"
  using assms(2)
proof (induction pre arbitrary: st)
  case Nil
  from assms(1) show ?case by (simp add: Let_def)
next
  case (Cons row pre)
  obtain q ipq where row: "row = (q, ipq)" by (cases row)
  have q: "q \<noteq> sid" and rest: "sid \<notin> fst ` set pre"
    using Cons.prems row by auto
  show ?case
    using q by (simp add: row Let_def Cons.IH [OF rest] filter_other_update_server_status)
qed

subsection \<open>A query that rejects during the pass\<close>

text \<open>
  Claim C9, as the code has it. When the status update or the alert insert of one server
  rejects, the pass ends there: the job logs the failure and its result is that of the
  loop over the list cut after that server. Every server later in the list keeps its rows
  and its alerts as they were: it is not checked. The server at which the pass ends gets
  no alert; its rows are as they were when its status update is what rejects, and are
  written (offline, with the instant of the update in \<open>last_checked\<close>) when its alert insert
  is what rejects. Every server earlier in the list, none of whose queries rejects, keeps
  what the pass wrote: its rows have the instant of its update in \<open>last_checked\<close> and the
  status of its probe, and its alerts are those it had, followed by one new open critical
  alert when the probe is unhealthy and by nothing when it is healthy.
\<close>

theorem failed_query_ends_pass:
  assumes "\<not> select_fails env"
    and "distinct (map s_id (servers st))"
    and "select_online st = pre @ (sid, ip) # post"
    and "update_fails (probes env sid)
         \<or> (\<not> isHealthy (probes env sid) \<and> insert_fails (probes env sid))"
  shows "health_check_job env st = check_servers (probes env) (pre @ [(sid, ip)]) st
       \<and> fst (health_check_job env st) = HealthCheckFailed
       \<and> (\<forall>r \<in> fst ` set post.
            filter (\<lambda>s. s_id s = r) (servers (snd (health_check_job env st)))
              = filter (\<lambda>s. s_id s = r) (servers st)
            \<and> filter (\<lambda>a. server_id a = Some r) (alerts (snd (health_check_job env st)))
              = filter (\<lambda>a. server_id a = Some r) (alerts st))
       \<and> filter (\<lambda>a. server_id a = Some sid) (alerts (snd (health_check_job env st)))
         = filter (\<lambda>a. server_id a = Some sid) (alerts st)
       \<and> (update_fails (probes env sid) \<longrightarrow>
            filter (\<lambda>s. s_id s = sid) (servers (snd (health_check_job env st)))
            = filter (\<lambda>s. s_id s = sid) (servers st))
       \<and> ((\<forall>r \<in> fst ` set pre.
              \<not> update_fails (probes env r)
              \<and> (\<not> isHealthy (probes env r) \<longrightarrow> \<not> insert_fails (probes env r))) \<longrightarrow>
            (\<forall>r \<in> fst ` set pre.
               filter (\<lambda>s. s_id s = r) (servers (snd (health_check_job env st)))
               = map (\<lambda>s. s\<lparr>last_checked := Some (update_at (probes env r)),
                             status := (if isHealthy (probes env r) then Online else Offline),
                             s_updated_at := update_at (probes env r)\<rparr>)
                   (filter (\<lambda>s. s_id s = r) (servers st))
               \<and> (\<exists>new. filter (\<lambda>a. server_id a = Some r)
                            (alerts (snd (health_check_job env st)))
                          = filter (\<lambda>a. server_id a = Some r) (alerts st) @ new
                        \<and> length new = (if isHealthy (probes env r) then 0 else 1)
                        \<and> list_all (\<lambda>a. severity a = Critical \<and> \<not> acknowledged a) new))
            \<and> (\<not> update_fails (probes env sid) \<longrightarrow>
                 filter (\<lambda>s. s_id s = sid) (servers (snd (health_check_job env st)))
                 = map (\<lambda>s. s\<lparr>last_checked := Some (update_at (probes env sid)),
                               status := Offline,
                               s_updated_at := update_at (probes env sid)\<rparr>)
                     (filter (\<lambda>s. s_id s = sid) (servers st))))"
proof -
  let ?pr = "probes env"
  let ?after = "snd (health_check_job env st)"
  have job: "health_check_job env st = check_servers ?pr (pre @ [(sid, ip)]) st"
    and failed: "fst (health_check_job env st) = HealthCheckFailed"
    using assms(1)
      check_servers_abort [where pr = ?pr and sid = sid, OF assms(4), of pre ip post st]
      check_servers_abort_log [where pr = ?pr and sid = sid, OF assms(4), of pre ip post st]
    by (simp_all add: health_check_job_def assms(3))
  have dist: "distinct (map fst (pre @ (sid, ip) # post))"
    using distinct_select_online [OF assms(2)] by (simp only: assms(3))
  then have out: "r \<notin> fst ` set (pre @ [(sid, ip)])" if "r \<in> fst ` set post" for r
    using that by auto
  have later: "filter (\<lambda>s. s_id s = r) (servers ?after)
          = filter (\<lambda>s. s_id s = r) (servers st)
        \<and> filter (\<lambda>a. server_id a = Some r) (alerts ?after)
          = filter (\<lambda>a. server_id a = Some r) (alerts st)"
    if "r \<in> fst ` set post" for r
    unfolding job
    using check_servers_other_servers [OF out [OF that], of ?pr st]
      check_servers_other_alerts_all [OF out [OF that], of ?pr st]
    by simp
  from dist have sid_new: "sid \<notin> fst ` set pre" by auto
  have own_alerts: "filter (\<lambda>a. server_id a = Some sid) (alerts ?after)
         = filter (\<lambda>a. server_id a = Some sid) (alerts st)"
    unfolding job
    by (rule check_servers_failing_alerts [where pr = ?pr, OF assms(4) sid_new])
  have own_rows: "filter (\<lambda>s. s_id s = sid) (servers ?after)
            = filter (\<lambda>s. s_id s = sid) (servers st)"
    if "update_fails (?pr sid)"
    unfolding job
    by (rule check_servers_failing_servers [where pr = ?pr, OF that sid_new])
  have earlier: "filter (\<lambda>s. s_id s = r) (servers ?after)
               = map (\<lambda>s. s\<lparr>last_checked := Some (update_at (?pr r)),
                             status := (if isHealthy (?pr r) then Online else Offline),
                             s_updated_at := update_at (?pr r)\<rparr>)
                   (filter (\<lambda>s. s_id s = r) (servers st))
               \<and> (\<exists>new. filter (\<lambda>a. server_id a = Some r) (alerts ?after)
                          = filter (\<lambda>a. server_id a = Some r) (alerts st) @ new
                        \<and> length new = (if isHealthy (?pr r) then 0 else 1)
                        \<and> list_all (\<lambda>a. severity a = Critical \<and> \<not> acknowledged a) new)"
    if ok: "\<forall>r \<in> fst ` set pre.
              \<not> update_fails (?pr r) \<and> (\<not> isHealthy (?pr r) \<longrightarrow> \<not> insert_fails (?pr r))"
      and r: "r \<in> fst ` set pre" for r
  proof -
    from r obtain ipr where "(r, ipr) \<in> set pre" by auto
    then obtain p1 p2 where pre: "pre = p1 @ (r, ipr) # p2"
      by (auto dest: split_list)
    from dist have r1: "r \<notin> fst ` set p1" and r2: "r \<notin> fst ` set (p2 @ [(sid, ip)])"
      unfolding pre by auto
    from ok have ok1: "\<forall>i \<in> fst ` set p1.
              \<not> update_fails (?pr i) \<and> (\<not> isHealthy (?pr i) \<longrightarrow> \<not> insert_fails (?pr i))"
      and okr: "\<not> update_fails (?pr r)" "\<not> isHealthy (?pr r) \<longrightarrow> \<not> insert_fails (?pr r)"
      unfolding pre by auto
    have cut: "pre @ [(sid, ip)] = p1 @ (r, ipr) # (p2 @ [(sid, ip)])"
      unfolding pre by simp
    show ?thesis
      unfolding job cut
      using check_servers_reached_servers [OF ok1 r1 r2 okr(1), of ipr st]
        check_servers_reached_alerts [OF ok1 r1 r2 okr, of ipr st]
      by blast
  qed
  have own_written: "filter (\<lambda>s. s_id s = sid) (servers ?after)
                 = map (\<lambda>s. s\<lparr>last_checked := Some (update_at (?pr sid)),
                               status := Offline,
                               s_updated_at := update_at (?pr sid)\<rparr>)
                     (filter (\<lambda>s. s_id s = sid) (servers st))"
    if ok: "\<forall>r \<in> fst ` set pre.
              \<not> update_fails (?pr r) \<and> (\<not> isHealthy (?pr r) \<longrightarrow> \<not> insert_fails (?pr r))"
      and up: "\<not> update_fails (?pr sid)"
  proof -
    from up assms(4) have "\<not> isHealthy (?pr sid)" by blast
    then show ?thesis
      unfolding job
      using check_servers_reached_servers [OF ok sid_new _ up, of "[]" ip st]
      by simp
  qed
  from job failed later own_alerts own_rows earlier own_written show ?thesis
    by blast
qed

theorem failed_query_ends_pass_witness:
  "\<not> select_fails (update_rejects 300 2)
   \<and> distinct (map s_id (servers (initial_store 0)))
   \<and> select_online (initial_store 0)
     = [(1, ''10.0.1.10'')] @ (2, ''10.0.1.20'')
       # [(3, ''10.0.1.30''), (4, ''10.0.1.40''), (5, ''10.0.1.50'')]
   \<and> update_fails (probes (update_rejects 300 2) 2)
   \<and> fst (health_check_job (update_rejects 300 2) (initial_store 0)) = HealthCheckFailed
   \<and> filter (\<lambda>s. s_id s = 3)
        (servers (snd (health_check_job (update_rejects 300 2) (initial_store 0))))
     = filter (\<lambda>s. s_id s = 3) (servers (initial_store 0))
   \<and> filter (\<lambda>s. s_id s = 2)
        (servers (snd (health_check_job (update_rejects 300 2) (initial_store 0))))
     = filter (\<lambda>s. s_id s = 2) (servers (initial_store 0))
   \<and> map (\<lambda>s. (s_id s, status s, last_checked s))
        (filter (\<lambda>s. s_id s = 1)
           (servers (snd (health_check_job (update_rejects 300 2) (initial_store 0)))))
     = [(1, Online, Some 300)]"
proof -
  let ?env = "update_rejects 300 2"
  let ?after = "snd (health_check_job ?env (initial_store 0))"
  have h1: "\<not> select_fails ?env"
    by (simp add: update_rejects_def)
  have h2: "distinct (map s_id (servers (initial_store 0)))"
    by (simp add: initial_store_def sample_server_def)
  have h3: "select_online (initial_store 0)
     = [(1, ''10.0.1.10'')] @ (2, ''10.0.1.20'')
       # [(3, ''10.0.1.30''), (4, ''10.0.1.40''), (5, ''10.0.1.50'')]"
    by (simp add: select_online_def initial_store_def sample_server_def)
  have h4: "update_fails (probes ?env 2)"
    by (simp add: update_rejects_def probe_at_def)
  have h5: "\<forall>r \<in> fst ` set [(1::int, ''10.0.1.10'')].
              \<not> update_fails (probes ?env r)
              \<and> (\<not> isHealthy (probes ?env r) \<longrightarrow> \<not> insert_fails (probes ?env r))"
    by (simp add: update_rejects_def probe_at_def)
  note concl = failed_query_ends_pass [OF h1 h2 h3 disjI1 [OF h4]]
  have in3: "(3::int) \<in> fst ` set [(3, ''10.0.1.30''), (4, ''10.0.1.40''), (5, ''10.0.1.50'')]"
    and in1: "(1::int) \<in> fst ` set [(1, ''10.0.1.10'')]"
    by simp_all
  from concl have failed: "fst (health_check_job ?env (initial_store 0)) = HealthCheckFailed"
    by blast
  from concl in3 have s3: "filter (\<lambda>s. s_id s = 3) (servers ?after)
     = filter (\<lambda>s. s_id s = 3) (servers (initial_store 0))"
    by blast
  from concl h4 have s2: "filter (\<lambda>s. s_id s = 2) (servers ?after)
     = filter (\<lambda>s. s_id s = 2) (servers (initial_store 0))"
    by blast
  from concl h5 in1 have "filter (\<lambda>s. s_id s = 1) (servers ?after)
     = map (\<lambda>s. s\<lparr>last_checked := Some (update_at (probes ?env 1)),
                   status := (if isHealthy (probes ?env 1) then Online else Offline),
                   s_updated_at := update_at (probes ?env 1)\<rparr>)
         (filter (\<lambda>s. s_id s = 1) (servers (initial_store 0)))"
    by blast
  then have s1: "map (\<lambda>s. (s_id s, status s, last_checked s))
        (filter (\<lambda>s. s_id s = 1) (servers ?after))
     = [(1, Online, Some 300)]"
    by (simp add: update_rejects_def probe_at_def initial_store_def sample_server_def)
  from h1 h2 h3 h4 failed s3 s2 s1 show ?thesis by blast
qed

text \<open>
  The claim as it is written fails on the sample data: the status update of server 2
  rejects, and servers 3, 4 and 5, which come after it, are not checked.
\<close>

theorem pass_aborts_counterexample:
  "fst (health_check_job (update_rejects 300 2) (initial_store 0)) = HealthCheckFailed
   \<and> map (\<lambda>s. (s_id s, last_checked s))
       (servers (snd (health_check_job (update_rejects 300 2) (initial_store 0))))
     = [(1, Some 300), (2, None), (3, None), (4, None), (5, None), (6, None)]"
  by (simp add: update_rejects_def initial_store_def sample_server_def sample_alert_def probe_at_def
      health_check_job_def select_online_def update_server_status_def insert_alert_def Let_def)

section \<open>Acknowledgment\<close>

text \<open>
  What the update writes, column by column: the rows with the given id get the flag, the
  actor and the instant; the other rows, and the other columns of every row, stay.
\<close>

lemma update_acknowledged_twice:
  "update_acknowledged t2 u2 aid (update_acknowledged t1 u1 aid st) = update_acknowledged t2 u2 aid st"
  by (simp add: update_acknowledged_def acknowledge_row_def)

lemma acknowledged_columns:
  "map (\<lambda>a. (acknowledged a, acknowledged_by a, acknowledged_at a, updated_at a))
     (filter (\<lambda>a. a_id a = aid) (alerts (update_acknowledged t uid aid st)))
   = map (\<lambda>a. (True, Some uid, Some t, t)) (filter (\<lambda>a. a_id a = aid) (alerts st))"
proof -
  have "map (\<lambda>a. (acknowledged a, acknowledged_by a, acknowledged_at a, updated_at a))
          (filter (\<lambda>a. a_id a = aid)
             (map (\<lambda>a. if a_id a = aid then acknowledge_row t uid a else a) xs))
        = map (\<lambda>a. (True, Some uid, Some t, t)) (filter (\<lambda>a. a_id a = aid) xs)" for xs
    by (induction xs) (simp_all add: acknowledge_row_def)
  then show ?thesis by (simp add: update_acknowledged_def)
qed

lemma other_alerts_update_acknowledged:
  "filter (\<lambda>a. a_id a \<noteq> aid) (alerts (update_acknowledged t uid aid st))
   = filter (\<lambda>a. a_id a \<noteq> aid) (alerts st)"
proof -
  have "filter (\<lambda>a. a_id a \<noteq> aid)
          (map (\<lambda>a. if a_id a = aid then acknowledge_row t uid a else a) xs)
        = filter (\<lambda>a. a_id a \<noteq> aid) xs" for xs
    by (induction xs) (simp_all add: acknowledge_row_def)
  then show ?thesis by (simp add: update_acknowledged_def)
qed

lemma update_acknowledged_unknown:
  assumes "aid \<notin> a_id ` set (alerts st)"
  shows "update_acknowledged t uid aid st = st"
proof -
  have "map (\<lambda>a. if a_id a = aid then acknowledge_row t uid a else a) (alerts st) = alerts st"
    using assms by (intro map_idI) auto
  then show ?thesis by (simp add: update_acknowledged_def)
qed

lemma post_acknowledge_ok:
  assumes "\<not> db_fails env" and "int4 aid" and "int4 (u_id u)"
  shows "post_acknowledge env (ValidToken u) (Some aid) sys
         = (Respond 200 SuccessJson,
            sys\<lparr>db := update_acknowledged (now env) (u_id u) aid (db sys)\<rparr>)"
  using assms by (simp add: post_acknowledge_def authenticate_def acknowledge_handler_def)

lemma post_acknowledge_rejected:
  assumes "db_fails env \<or> \<not> int4 aid \<or> \<not> int4 (u_id u)"
  shows "post_acknowledge env (ValidToken u) (Some aid) sys
         = (Respond 500 (ErrorJson ''Failed to acknowledge alert''), sys)"
  using assms by (auto simp: post_acknowledge_def authenticate_def acknowledge_handler_def)

subsection \<open>Acknowledging twice\<close>

text \<open>
  Claim C3, as the code has it. Two acknowledgments of the same alert, by authenticated
  actors, with ids in the range of the integer columns and the store reachable, both
  answer 200 with a success body. After the first, the rows of the alert have
  \<open>acknowledged = true\<close> with the first actor and the first instant. The second is not a
  no-op: the update has no condition on the \<open>acknowledged\<close> flag, so after it the rows have
  \<open>acknowledged = true\<close> with the second actor and the second instant in \<open>acknowledged_by\<close>,
  \<open>acknowledged_at\<close> and \<open>updated_at\<close>. The other alerts are as they were, and the state
  after both is the state after the second alone.
\<close>

theorem acknowledge_twice_last_wins:
  assumes "\<not> db_fails e1" and "\<not> db_fails e2"
    and "int4 aid" and "int4 (u_id u1)" and "int4 (u_id u2)"
  shows "let first = post_acknowledge e1 (ValidToken u1) (Some aid) sys;
             second = post_acknowledge e2 (ValidToken u2) (Some aid) (snd first)
         in fst first = Respond 200 SuccessJson
          \<and> fst second = Respond 200 SuccessJson
          \<and> map (\<lambda>a. (acknowledged a, acknowledged_by a, acknowledged_at a, updated_at a))
               (filter (\<lambda>a. a_id a = aid) (alerts (db (snd first))))
            = map (\<lambda>a. (True, Some (u_id u1), Some (now e1), now e1))
                (filter (\<lambda>a. a_id a = aid) (alerts (db sys)))
          \<and> map (\<lambda>a. (acknowledged a, acknowledged_by a, acknowledged_at a, updated_at a))
               (filter (\<lambda>a. a_id a = aid) (alerts (db (snd second))))
            = map (\<lambda>a. (True, Some (u_id u2), Some (now e2), now e2))
                (filter (\<lambda>a. a_id a = aid) (alerts (db sys)))
          \<and> filter (\<lambda>a. a_id a \<noteq> aid) (alerts (db (snd second)))
            = filter (\<lambda>a. a_id a \<noteq> aid) (alerts (db sys))
          \<and> snd second = snd (post_acknowledge e2 (ValidToken u2) (Some aid) sys)"
proof -
  let ?once = "sys\<lparr>db := update_acknowledged (now e1) (u_id u1) aid (db sys)\<rparr>"
  have first: "post_acknowledge e1 (ValidToken u1) (Some aid) sys = (Respond 200 SuccessJson, ?once)"
    by (rule post_acknowledge_ok [OF assms(1,3,4)])
  have second: "post_acknowledge e2 (ValidToken u2) (Some aid) ?once
      = (Respond 200 SuccessJson,
         sys\<lparr>db := update_acknowledged (now e2) (u_id u2) aid (db sys)\<rparr>)"
    by (simp add: post_acknowledge_ok [OF assms(2,3,5)] update_acknowledged_twice)
  have alone: "post_acknowledge e2 (ValidToken u2) (Some aid) sys
      = (Respond 200 SuccessJson,
         sys\<lparr>db := update_acknowledged (now e2) (u_id u2) aid (db sys)\<rparr>)"
    by (rule post_acknowledge_ok [OF assms(2,3,5)])
  show ?thesis
    unfolding Let_def first snd_conv fst_conv second alone
    by (simp add: acknowledged_columns other_alerts_update_acknowledged)
qed

theorem acknowledge_twice_last_wins_witness:
  "\<not> db_fails (request_at 100) \<and> \<not> db_fails (request_at 200)
   \<and> int4 1 \<and> int4 (u_id \<lparr>u_id = 7, role = Operator\<rparr>) \<and> int4 (u_id \<lparr>u_id = 8, role = Admin\<rparr>)
   \<and> fst (post_acknowledge (request_at 200) (ValidToken \<lparr>u_id = 8, role = Admin\<rparr>) (Some 1)
           (snd (post_acknowledge (request_at 100) (ValidToken \<lparr>u_id = 7, role = Operator\<rparr>)
                  (Some 1) (initial_system 0))))
     = Respond 200 SuccessJson
   \<and> map (\<lambda>a. (acknowledged a, acknowledged_by a, acknowledged_at a, updated_at a))
        (filter (\<lambda>a. a_id a = 1)
           (alerts (db (snd (post_acknowledge (request_at 100)
              (ValidToken \<lparr>u_id = 7, role = Operator\<rparr>) (Some 1) (initial_system 0))))))
     = [(True, Some 7, Some 100, 100)]
   \<and> map (\<lambda>a. (acknowledged a, acknowledged_by a, acknowledged_at a, updated_at a))
        (filter (\<lambda>a. a_id a = 1)
           (alerts (db (snd (post_acknowledge (request_at 200)
              (ValidToken \<lparr>u_id = 8, role = Admin\<rparr>) (Some 1)
              (snd (post_acknowledge (request_at 100)
                 (ValidToken \<lparr>u_id = 7, role = Operator\<rparr>) (Some 1) (initial_system 0))))))))
     = [(True, Some 8, Some 200, 200)]"
proof -
  have h1: "\<not> db_fails (request_at 100)" and h2: "\<not> db_fails (request_at 200)"
    by (simp_all add: request_at_def)
  have h3: "int4 1" and h4: "int4 (u_id \<lparr>u_id = 7, role = Operator\<rparr>)"
    and h5: "int4 (u_id \<lparr>u_id = 8, role = Admin\<rparr>)"
    by (simp_all add: int4_def)
  have rows: "filter (\<lambda>a. a_id a = 1) (alerts (db (initial_system 0)))
      = [sample_alert 0 1 1 Critical ''Database CPU usage above 95% for 5 minutes'']"
    by (simp add: initial_system_def initial_store_def sample_alert_def)
  have t1: "now (request_at 100) = 100" and t2: "now (request_at 200) = 200"
    by (simp_all add: request_at_def)
  note concl = acknowledge_twice_last_wins
    [OF h1 h2 h3 h4 h5, of "initial_system 0",
     unfolded Let_def rows t1 t2 list.map user.select_convs]
  with h1 h2 h3 h4 h5 show ?thesis by blast
qed

text \<open>
  The claim as it is written fails on the sample data: user 7 acknowledges alert 1 at the
  instant 100 and again at the instant 200; \<open>acknowledged_at\<close> is 100 after the first and 200
  after the second.
\<close>

theorem acknowledge_twice_counterexample:
  "map (\<lambda>a. (a_id a, acknowledged_by a, acknowledged_at a))
     (alerts (db (snd (post_acknowledge (request_at 100)
        (ValidToken \<lparr>u_id = 7, role = Operator\<rparr>) (Some 1) (initial_system 0)))))
   = [(1, Some 7, Some 100), (2, None, None), (3, None, None)]
   \<and> map (\<lambda>a. (a_id a, acknowledged_by a, acknowledged_at a))
       (alerts (db (snd (post_acknowledge (request_at 200)
          (ValidToken \<lparr>u_id = 7, role = Operator\<rparr>) (Some 1)
          (snd (post_acknowledge (request_at 100)
             (ValidToken \<lparr>u_id = 7, role = Operator\<rparr>) (Some 1) (initial_system 0)))))))
   = [(1, Some 7, Some 200), (2, None, None), (3, None, None)]"
  by (simp add: post_acknowledge_def authenticate_def acknowledge_handler_def int4_def
      update_acknowledged_def acknowledge_row_def request_at_def initial_system_def
      initial_store_def sample_alert_def)

subsection \<open>An id that no alert has\<close>

text \<open>
  Claim C4, as the code has it. For an id that no alert has, whoever asks and whatever the
  circumstances, the system is unchanged and the answer is never 404. For an
  authenticated actor: when the id and the actor's id are in the range of the integer
  columns and the store is reachable, the update matches no row, its row count is not
  looked at, and the answer is 200 with a success body; when the store is unreachable or
  one of the two ids is out of that range, the query rejects and the answer is 500.
\<close>

theorem acknowledge_unknown_id:
  assumes "aid \<notin> a_id ` set (alerts (db sys))"
  shows "snd (post_acknowledge env cred (Some aid) sys) = sys
       \<and> fst (post_acknowledge env cred (Some aid) sys) \<noteq> Respond 404 b
       \<and> (\<not> db_fails env \<and> int4 aid \<and> int4 (u_id u) \<longrightarrow>
            fst (post_acknowledge env (ValidToken u) (Some aid) sys) = Respond 200 SuccessJson)
       \<and> (db_fails env \<or> \<not> int4 aid \<or> \<not> int4 (u_id u) \<longrightarrow>
            fst (post_acknowledge env (ValidToken u) (Some aid) sys)
            = Respond 500 (ErrorJson ''Failed to acknowledge alert''))"
proof -
  have unchanged: "snd (post_acknowledge env cred (Some aid) sys) = sys"
    by (simp add: post_acknowledge_def authenticate_def acknowledge_handler_def
        update_acknowledged_unknown [OF assms] split: credentials.split)
  have never: "fst (post_acknowledge env cred (Some aid) sys) \<noteq> Respond 404 b"
    by (simp add: post_acknowledge_def authenticate_def acknowledge_handler_def
        split: credentials.split)
  show ?thesis
    using unchanged never
    by (simp add: post_acknowledge_ok post_acknowledge_rejected)
qed

theorem acknowledge_unknown_id_witness:
  "99 \<notin> a_id ` set (alerts (db (initial_system 0)))
   \<and> \<not> db_fails (request_at 100) \<and> int4 99 \<and> int4 (u_id \<lparr>u_id = 7, role = Operator\<rparr>)
   \<and> snd (post_acknowledge (request_at 100) (ValidToken \<lparr>u_id = 7, role = Operator\<rparr>) (Some 99)
          (initial_system 0))
     = initial_system 0
   \<and> fst (post_acknowledge (request_at 100) (ValidToken \<lparr>u_id = 7, role = Operator\<rparr>) (Some 99)
          (initial_system 0))
     = Respond 200 SuccessJson
   \<and> 2147483648 \<notin> a_id ` set (alerts (db (initial_system 0)))
   \<and> \<not> int4 2147483648
   \<and> fst (post_acknowledge (request_at 100) (ValidToken \<lparr>u_id = 7, role = Operator\<rparr>)
          (Some 2147483648) (initial_system 0))
     = Respond 500 (ErrorJson ''Failed to acknowledge alert'')"
proof -
  have h1: "99 \<notin> a_id ` set (alerts (db (initial_system 0)))"
    and h2: "2147483648 \<notin> a_id ` set (alerts (db (initial_system 0)))"
    by (simp_all add: initial_system_def initial_store_def sample_alert_def)
  have e: "\<not> db_fails (request_at 100)"
    by (simp add: request_at_def)
  have i1: "int4 99" and i2: "int4 (u_id \<lparr>u_id = 7, role = Operator\<rparr>)"
    and i3: "\<not> int4 2147483648"
    by (simp_all add: int4_def)
  note small = acknowledge_unknown_id
    [OF h1, of "request_at 100" "ValidToken \<lparr>u_id = 7, role = Operator\<rparr>" _
       "\<lparr>u_id = 7, role = Operator\<rparr>"]
  note large = acknowledge_unknown_id
    [OF h2, of "request_at 100" "ValidToken \<lparr>u_id = 7, role = Operator\<rparr>" _
       "\<lparr>u_id = 7, role = Operator\<rparr>"]
  from small large h1 h2 e i1 i2 i3 show ?thesis by blast
qed

text \<open>
  The claim as it is written fails on the sample data, whose alerts are 1, 2 and 3:
  acknowledging alert 99 answers 200, not 404.
\<close>

theorem unknown_id_counterexample:
  "map a_id (alerts (db (initial_system 0))) = [1, 2, 3]
   \<and> fst (post_acknowledge (request_at 100) (ValidToken \<lparr>u_id = 7, role = Operator\<rparr>) (Some 99)
          (initial_system 0))
     = Respond 200 SuccessJson"
  by (simp add: post_acknowledge_def authenticate_def acknowledge_handler_def int4_def
      update_acknowledged_def acknowledge_row_def request_at_def initial_system_def
      initial_store_def sample_alert_def)

subsection \<open>The role of the actor\<close>

text \<open>
  Claim C5, as the code has it. The handler does not read the role of the actor. Whatever
  the circumstances, every role gets what a viewer gets, and no request at all is answered
  403; a request without a token, or with a token that does not verify, is answered 401
  and changes nothing. A viewer who acknowledges an alert, with ids in the range of the
  integer columns and the store reachable, gets 200, and the rows of the alert then have
  \<open>acknowledged = true\<close>, the viewer in \<open>acknowledged_by\<close> and the instant of the request in
  \<open>acknowledged_at\<close> and \<open>updated_at\<close>.
\<close>

theorem acknowledge_ignores_role:
  "(\<not> db_fails env \<and> int4 aid \<and> int4 uid \<longrightarrow>
      fst (post_acknowledge env (ValidToken \<lparr>u_id = uid, role = Viewer\<rparr>) (Some aid) sys)
      = Respond 200 SuccessJson
    \<and> map (\<lambda>a. (acknowledged a, acknowledged_by a, acknowledged_at a, updated_at a))
         (filter (\<lambda>a. a_id a = aid)
            (alerts (db (snd (post_acknowledge env (ValidToken \<lparr>u_id = uid, role = Viewer\<rparr>)
                               (Some aid) sys)))))
      = map (\<lambda>a. (True, Some uid, Some (now env), now env))
          (filter (\<lambda>a. a_id a = aid) (alerts (db sys))))
   \<and> post_acknowledge env (ValidToken \<lparr>u_id = uid, role = r\<rparr>) param sys
     = post_acknowledge env (ValidToken \<lparr>u_id = uid, role = Viewer\<rparr>) param sys
   \<and> fst (post_acknowledge env cred param sys) \<noteq> Respond 403 b
   \<and> post_acknowledge env NoToken param sys
     = (Respond 401 (ErrorJson ''Authentication required''), sys)
   \<and> post_acknowledge env InvalidToken param sys
     = (Respond 401 (ErrorJson ''Invalid token''), sys)"
proof -
  have viewer: "\<not> db_fails env \<and> int4 aid \<and> int4 uid \<longrightarrow>
      fst (post_acknowledge env (ValidToken \<lparr>u_id = uid, role = Viewer\<rparr>) (Some aid) sys)
      = Respond 200 SuccessJson
    \<and> map (\<lambda>a. (acknowledged a, acknowledged_by a, acknowledged_at a, updated_at a))
         (filter (\<lambda>a. a_id a = aid)
            (alerts (db (snd (post_acknowledge env (ValidToken \<lparr>u_id = uid, role = Viewer\<rparr>)
                               (Some aid) sys)))))
      = map (\<lambda>a. (True, Some uid, Some (now env), now env))
          (filter (\<lambda>a. a_id a = aid) (alerts (db sys)))"
    by (simp add: post_acknowledge_ok acknowledged_columns)
  have roles: "post_acknowledge env (ValidToken \<lparr>u_id = uid, role = r\<rparr>) param sys
     = post_acknowledge env (ValidToken \<lparr>u_id = uid, role = Viewer\<rparr>) param sys"
    by (simp add: post_acknowledge_def authenticate_def acknowledge_handler_def
        split: option.split)
  have never: "fst (post_acknowledge env cred param sys) \<noteq> Respond 403 b"
    by (simp add: post_acknowledge_def authenticate_def acknowledge_handler_def
        split: credentials.split option.split)
  have unauth: "post_acknowledge env NoToken param sys
     = (Respond 401 (ErrorJson ''Authentication required''), sys)"
    "post_acknowledge env InvalidToken param sys
     = (Respond 401 (ErrorJson ''Invalid token''), sys)"
    by (simp_all add: post_acknowledge_def authenticate_def)
  from viewer roles never unauth show ?thesis by blast
qed

theorem acknowledge_ignores_role_witness:
  "\<not> db_fails (request_at 100) \<and> int4 1 \<and> int4 9
   \<and> fst (post_acknowledge (request_at 100) (ValidToken \<lparr>u_id = 9, role = Viewer\<rparr>) (Some 1)
          (initial_system 0))
     = Respond 200 SuccessJson
   \<and> map (\<lambda>a. (acknowledged a, acknowledged_by a, acknowledged_at a, updated_at a))
        (filter (\<lambda>a. a_id a = 1)
           (alerts (db (snd (post_acknowledge (request_at 100)
              (ValidToken \<lparr>u_id = 9, role = Viewer\<rparr>) (Some 1) (initial_system 0))))))
     = [(True, Some 9, Some 100, 100)]"
proof -
  have h1: "\<not> db_fails (request_at 100)" and h2: "int4 1" and h3: "int4 9"
    by (simp_all add: request_at_def int4_def)
  have rows: "filter (\<lambda>a. a_id a = 1) (alerts (db (initial_system 0)))
      = [sample_alert 0 1 1 Critical ''Database CPU usage above 95% for 5 minutes'']"
    by (simp add: initial_system_def initial_store_def sample_alert_def)
  have t: "now (request_at 100) = 100"
    by (simp add: request_at_def)
  note concl = acknowledge_ignores_role
    [of "request_at 100" 1 9 "initial_system 0", unfolded rows t list.map]
  with h1 h2 h3 show ?thesis by blast
qed

text \<open>
  The claim as it is written fails on the sample data: the viewer 9 acknowledges alert 1,
  the answer is 200 and alert 1 is acknowledged by 9.
\<close>

theorem viewer_acknowledges_counterexample:
  "fst (post_acknowledge (request_at 100) (ValidToken \<lparr>u_id = 9, role = Viewer\<rparr>) (Some 1)
          (initial_system 0))
     = Respond 200 SuccessJson
   \<and> map (\<lambda>a. (a_id a, acknowledged a, acknowledged_by a))
       (alerts (db (snd (post_acknowledge (request_at 100)
          (ValidToken \<lparr>u_id = 9, role = Viewer\<rparr>) (Some 1) (initial_system 0)))))
     = [(1, True, Some 9), (2, False, None), (3, False, None)]"
  by (simp add: post_acknowledge_def authenticate_def acknowledge_handler_def int4_def
      update_acknowledged_def acknowledge_row_def request_at_def initial_system_def
      initial_store_def sample_alert_def)

section \<open>The acknowledged flag and its timestamp\<close>

lemma ack_consistent_insert_alert:
  "list_all ack_consistent (alerts st) \<Longrightarrow>
   list_all ack_consistent (alerts (insert_alert t sid ip st))"
  by (simp add: insert_alert_def ack_consistent_def)

lemma ack_consistent_check_servers:
  "list_all ack_consistent (alerts st) \<Longrightarrow>
   list_all ack_consistent (alerts (snd (check_servers pr rows st)))"
  by (induction pr rows st rule: check_servers.induct)
     (simp_all add: Let_def ack_consistent_insert_alert)

lemma ack_consistent_health_check_job:
  "list_all ack_consistent (alerts st) \<Longrightarrow>
   list_all ack_consistent (alerts (snd (health_check_job env st)))"
  by (simp add: health_check_job_def ack_consistent_check_servers)

lemma ack_consistent_acknowledge_row: "ack_consistent (acknowledge_row t uid a)"
  by (simp add: ack_consistent_def acknowledge_row_def)

lemma ack_consistent_update_acknowledged:
  "list_all ack_consistent (alerts st) \<Longrightarrow>
   list_all ack_consistent (alerts (update_acknowledged t uid aid st))"
  by (auto simp: update_acknowledged_def list_all_iff ack_consistent_acknowledge_row)

lemma ack_consistent_post_acknowledge:
  "list_all ack_consistent (alerts (db sys)) \<Longrightarrow>
   list_all ack_consistent (alerts (db (snd (post_acknowledge env cred param sys))))"
  by (simp add: post_acknowledge_def authenticate_def acknowledge_handler_def
      ack_consistent_update_acknowledged split: credentials.split option.split)

lemma db_get_dashboard_summary:
  "db (snd (get_dashboard_summary env cred res sys)) = db sys"
  by (simp add: get_dashboard_summary_def authenticate_def summary_handler_def Let_def
      split: credentials.split option.split)

lemma ack_consistent_step:
  "list_all ack_consistent (alerts (db sys)) \<Longrightarrow>
   list_all ack_consistent (alerts (db (step c sys)))"
  by (cases c)
     (simp_all add: ack_consistent_health_check_job ack_consistent_post_acknowledge
        db_get_dashboard_summary)

text \<open>
  Claim C6. If every alert of the store has \<open>acknowledged = true\<close> exactly when its
  \<open>acknowledged_at\<close> is set, then so has every alert after any sequence of runs of the
  health check, acknowledgment requests and summary requests, whatever their
  circumstances. The sample data is such a store.
\<close>

theorem acknowledged_iff_acknowledged_at:
  assumes "list_all ack_consistent (alerts (db sys))"
  shows "list_all ack_consistent (alerts (db (run calls sys)))"
  using assms by (induction calls arbitrary: sys) (simp_all add: ack_consistent_step)

theorem acknowledged_iff_acknowledged_at_witness:
  "list_all ack_consistent (alerts (db (initial_system 0)))
   \<and> list_all ack_consistent
       (alerts (db (run [HealthCheck (one_unhealthy 300 1),
                         AcknowledgeAlert (request_at 400)
                           (ValidToken \<lparr>u_id = 7, role = Operator\<rparr>) (Some 4),
                         GetSummary \<lparr>now = 500, db_fails = True, redis_fails = False\<rparr>
                           (ValidToken \<lparr>u_id = 9, role = Viewer\<rparr>)
                           \<lparr>cpu = ''41.5'', memory = ''63.0'', storage = ''12.2''\<rparr>]
                      (initial_system 0))))"
proof -
  have h: "list_all ack_consistent (alerts (db (initial_system 0)))"
    by (simp add: initial_system_def initial_store_def sample_alert_def ack_consistent_def)
  from h acknowledged_iff_acknowledged_at [OF h] show ?thesis by blast
qed

section \<open>The dashboard summary\<close>

lemma summary_hit:
  assumes "\<not> redis_fails env" and "redis_get (redis sys) (now env) cacheKey = Some cached"
  shows "get_dashboard_summary env (ValidToken u) res sys = (Respond 200 (SummaryJson cached), sys)"
  using assms by (simp add: get_dashboard_summary_def authenticate_def summary_handler_def)

lemma summary_miss:
  assumes "\<not> redis_fails env" and "\<not> db_fails env"
    and "redis_get (redis sys) (now env) cacheKey = None"
  shows "get_dashboard_summary env (ValidToken u) res sys
         = (Respond 200 (SummaryJson (build_summary (now env) res (db sys))),
            sys\<lparr>activeAlerts := summary_alerts (build_summary (now env) res (db sys)),
                redis := redis_setEx (redis sys) (now env) cacheKey 30
                           (build_summary (now env) res (db sys))\<rparr>)"
  using assms
  by (simp add: get_dashboard_summary_def authenticate_def summary_handler_def Let_def)

lemma redis_get_setEx:
  "redis_get (redis_setEx c t k ttl v) t' k = (if t' < t + ttl then Some v else None)"
  by (simp add: redis_get_def redis_setEx_def)

lemma critical_foldl:
  "critical (foldl set_alert_count c (map (\<lambda>sev. (sev, f sev)) xs))
   = (if Critical \<in> set xs then f Critical else critical c)"
proof (induction xs arbitrary: c)
  case Nil
  then show ?case by simp
next
  case (Cons x xs)
  then show ?case by (cases x) simp_all
qed

lemma warning_foldl:
  "warning (foldl set_alert_count c (map (\<lambda>sev. (sev, f sev)) xs))
   = (if Warning \<in> set xs then f Warning else warning c)"
proof (induction xs arbitrary: c)
  case Nil
  then show ?case by simp
next
  case (Cons x xs)
  then show ?case by (cases x) simp_all
qed

lemma info_foldl:
  "info (foldl set_alert_count c (map (\<lambda>sev. (sev, f sev)) xs))
   = (if Info \<in> set xs then f Info else info c)"
proof (induction xs arbitrary: c)
  case Nil
  then show ?case by simp
next
  case (Cons x xs)
  then show ?case by (cases x) simp_all
qed

lemma count_absent: "sev \<notin> severity ` set as \<Longrightarrow> length (filter (\<lambda>a. severity a = sev) as) = 0"
  by (auto simp: filter_empty_conv)

lemma summary_alerts_build_summary:
  "summary_alerts (build_summary t res st)
   = \<lparr>critical = length (filter (\<lambda>a. \<not> acknowledged a \<and> severity a = Critical) (alerts st)),
      warning = length (filter (\<lambda>a. \<not> acknowledged a \<and> severity a = Warning) (alerts st)),
      info = length (filter (\<lambda>a. \<not> acknowledged a \<and> severity a = Info) (alerts st))\<rparr>"
proof -
  let ?un = "filter (\<lambda>a. \<not> acknowledged a) (alerts st)"
  let ?c = "foldl set_alert_count \<lparr>critical = 0, warning = 0, info = 0\<rparr>
              (map (\<lambda>sev. (sev, length (filter (\<lambda>a. severity a = sev) ?un)))
                 (remdups (map severity ?un)))"
  have sa: "summary_alerts (build_summary t res st) = ?c"
    by (simp add: build_summary_def alerts_by_severity_def Let_def)
  have cnt: "length (filter (\<lambda>a. severity a = sev) ?un)
             = length (filter (\<lambda>a. \<not> acknowledged a \<and> severity a = sev) (alerts st))" for sev
    by (simp add: conj_commute)
  have "critical ?c = length (filter (\<lambda>a. severity a = Critical) ?un)"
    by (simp only: critical_foldl) (simp add: count_absent del: filter_filter)
  moreover have "warning ?c = length (filter (\<lambda>a. severity a = Warning) ?un)"
    by (simp only: warning_foldl) (simp add: count_absent del: filter_filter)
  moreover have "info ?c = length (filter (\<lambda>a. severity a = Info) ?un)"
    by (simp only: info_foldl) (simp add: count_absent del: filter_filter)
  ultimately have "?c = \<lparr>critical = length (filter (\<lambda>a. severity a = Critical) ?un),
      warning = length (filter (\<lambda>a. severity a = Warning) ?un),
      info = length (filter (\<lambda>a. severity a = Info) ?un)\<rparr>"
    by simp
  then show ?thesis
    by (simp only: sa cnt)
qed

lemma unacknowledged_by_severity:
  "length (filter (\<lambda>a. acknowledged a = False) as)
   = length (filter (\<lambda>a. \<not> acknowledged a \<and> severity a = Critical) as)
     + length (filter (\<lambda>a. \<not> acknowledged a \<and> severity a = Warning) as)
     + length (filter (\<lambda>a. \<not> acknowledged a \<and> severity a = Info) as)"
proof (induction as)
  case Nil
  then show ?case by simp
next
  case (Cons a as)
  then show ?case by (cases "severity a") simp_all
qed

lemma get_alert_summary_counts:
  "get_alert_summary st
   = (length (filter (\<lambda>a. \<not> acknowledged a \<and> severity a = Critical) (alerts st)),
      length (filter (\<lambda>a. \<not> acknowledged a \<and> severity a = Warning) (alerts st)),
      length (filter (\<lambda>a. \<not> acknowledged a \<and> severity a = Info) (alerts st)),
      length (filter (\<lambda>a. \<not> acknowledged a \<and> severity a = Critical) (alerts st))
      + length (filter (\<lambda>a. \<not> acknowledged a \<and> severity a = Warning) (alerts st))
      + length (filter (\<lambda>a. \<not> acknowledged a \<and> severity a = Info) (alerts st)))"
  unfolding get_alert_summary_def unacknowledged_by_severity
  by (simp add: conj_commute)

subsection \<open>Cache-aside\<close>

text \<open>The summary that a miss builds, field by field.\<close>

lemma build_summary_fields:
  "build_summary t res st
   = \<lparr>totalServers = length (filter (\<lambda>x. status x = Online) (servers st)),
      totalContainers = length (containers st),
      uptime = 9997 / 100,
      summary_alerts =
        \<lparr>critical = length (filter (\<lambda>a. \<not> acknowledged a \<and> severity a = Critical) (alerts st)),
         warning = length (filter (\<lambda>a. \<not> acknowledged a \<and> severity a = Warning) (alerts st)),
         info = length (filter (\<lambda>a. \<not> acknowledged a \<and> severity a = Info) (alerts st))\<rparr>,
      summary_resources = res,
      lastUpdated = t\<rparr>"
proof -
  have "build_summary t res st
        = \<lparr>totalServers = length (filter (\<lambda>x. status x = Online) (servers st)),
           totalContainers = length (containers st),
           uptime = 9997 / 100,
           summary_alerts = summary_alerts (build_summary t res st),
           summary_resources = res,
           lastUpdated = t\<rparr>"
    by (simp add: build_summary_def Let_def count_online_servers_def count_containers_def)
  then show ?thesis
    by (simp only: summary_alerts_build_summary)
qed

text \<open>
  Claim C7. For an authenticated caller, with the cache reachable: when the cache holds an
  unexpired summary, the answer is 200 with that summary and nothing changes, whatever the
  store holds and whether or not it is reachable. When it holds none and the store is
  reachable, the answer is 200 with a summary computed from the store at that instant: the
  number of online servers, the number of containers, the number of unacknowledged alerts
  of each severity, the resource averages and the instant of the request. The store is
  unchanged, and the cache then gives that summary to every read earlier than 30 seconds
  after the request, and nothing from then on.
\<close>

theorem summary_cache_aside:
  assumes "\<not> redis_fails env"
  shows "let fresh =
           \<lparr>totalServers = length (filter (\<lambda>x. status x = Online) (servers (db sys))),
            totalContainers = length (containers (db sys)),
            uptime = 9997 / 100,
            summary_alerts =
              \<lparr>critical = length (filter (\<lambda>a. \<not> acknowledged a \<and> severity a = Critical)
                                     (alerts (db sys))),
               warning = length (filter (\<lambda>a. \<not> acknowledged a \<and> severity a = Warning)
                                    (alerts (db sys))),
               info = length (filter (\<lambda>a. \<not> acknowledged a \<and> severity a = Info)
                                 (alerts (db sys)))\<rparr>,
            summary_resources = res,
            lastUpdated = now env\<rparr>;
             result = get_dashboard_summary env (ValidToken u) res sys
         in (redis_get (redis sys) (now env) cacheKey = Some cached \<longrightarrow>
               result = (Respond 200 (SummaryJson cached), sys))
          \<and> (redis_get (redis sys) (now env) cacheKey = None \<and> \<not> db_fails env \<longrightarrow>
               fst result = Respond 200 (SummaryJson fresh)
             \<and> db (snd result) = db sys
             \<and> redis_get (redis (snd result)) t' cacheKey
               = (if t' < now env + 30 then Some fresh else None))"
  using assms
  by (simp add: Let_def summary_hit summary_miss redis_get_setEx build_summary_fields)

theorem summary_cache_aside_witness:
  "\<not> redis_fails (request_at 500) \<and> \<not> db_fails (request_at 500)
   \<and> redis_get (redis (init_sql_system 0)) (now (request_at 500)) cacheKey = None
   \<and> fst (get_dashboard_summary (request_at 500) (ValidToken \<lparr>u_id = 9, role = Viewer\<rparr>)
            \<lparr>cpu = ''41.5'', memory = ''63.0'', storage = ''12.2''\<rparr> (init_sql_system 0))
     = Respond 200 (SummaryJson
         \<lparr>totalServers = 5, totalContainers = 0, uptime = 9997 / 100,
          summary_alerts = \<lparr>critical = 2, warning = 1, info = 1\<rparr>,
          summary_resources = \<lparr>cpu = ''41.5'', memory = ''63.0'', storage = ''12.2''\<rparr>,
          lastUpdated = 500\<rparr>)
   \<and> \<not> redis_fails \<lparr>now = 510, db_fails = True, redis_fails = False\<rparr>
   \<and> get_dashboard_summary \<lparr>now = 510, db_fails = True, redis_fails = False\<rparr>
         (ValidToken \<lparr>u_id = 7, role = Operator\<rparr>)
         \<lparr>cpu = ''50.0'', memory = ''50.0'', storage = ''50.0''\<rparr>
         (snd (get_dashboard_summary (request_at 500) (ValidToken \<lparr>u_id = 9, role = Viewer\<rparr>)
            \<lparr>cpu = ''41.5'', memory = ''63.0'', storage = ''12.2''\<rparr> (init_sql_system 0)))
     = (Respond 200 (SummaryJson
         \<lparr>totalServers = 5, totalContainers = 0, uptime = 9997 / 100,
          summary_alerts = \<lparr>critical = 2, warning = 1, info = 1\<rparr>,
          summary_resources = \<lparr>cpu = ''41.5'', memory = ''63.0'', storage = ''12.2''\<rparr>,
          lastUpdated = 500\<rparr>),
        snd (get_dashboard_summary (request_at 500) (ValidToken \<lparr>u_id = 9, role = Viewer\<rparr>)
            \<lparr>cpu = ''41.5'', memory = ''63.0'', storage = ''12.2''\<rparr> (init_sql_system 0)))"
proof -
  let ?res = "\<lparr>cpu = ''41.5'', memory = ''63.0'', storage = ''12.2''\<rparr>"
  let ?v = "ValidToken \<lparr>u_id = 9, role = Viewer\<rparr>"
  let ?sys1 = "snd (get_dashboard_summary (request_at 500) ?v ?res (init_sql_system 0))"
  let ?env2 = "\<lparr>now = 510, db_fails = True, redis_fails = False\<rparr>"
  let ?fresh = "\<lparr>totalServers = 5, totalContainers = 0, uptime = 9997 / 100,
          summary_alerts = \<lparr>critical = 2, warning = 1, info = 1\<rparr>,
          summary_resources = ?res, lastUpdated = 500\<rparr>"
  have h1: "\<not> redis_fails (request_at 500)" and h2: "\<not> db_fails (request_at 500)"
    by (simp_all add: request_at_def)
  have h3: "redis_get (redis (init_sql_system 0)) (now (request_at 500)) cacheKey = None"
    by (simp add: redis_get_def init_sql_system_def)
  have h4: "\<not> redis_fails ?env2"
    by simp
  have n: "length (filter (\<lambda>x. status x = Online) (servers (db (init_sql_system 0)))) = 5"
    and k: "length (containers (db (init_sql_system 0))) = 0"
    and c: "length (filter (\<lambda>a. \<not> acknowledged a \<and> severity a = Critical)
              (alerts (db (init_sql_system 0)))) = 2"
    and w: "length (filter (\<lambda>a. \<not> acknowledged a \<and> severity a = Warning)
              (alerts (db (init_sql_system 0)))) = 1"
    and i: "length (filter (\<lambda>a. \<not> acknowledged a \<and> severity a = Info)
              (alerts (db (init_sql_system 0)))) = 1"
    and t: "now (request_at 500) = 500"
    by (simp_all add: init_sql_system_def init_sql_store_def sample_server_def
        init_sql_alert_def request_at_def)
  note miss = summary_cache_aside
    [OF h1, where sys = "init_sql_system 0" and u = "\<lparr>u_id = 9, role = Viewer\<rparr>"
       and res = ?res and t' = 510, unfolded Let_def n k c w i]
  from miss h2 h3 have fresh: "fst (get_dashboard_summary (request_at 500) ?v ?res (init_sql_system 0))
      = Respond 200 (SummaryJson ?fresh)"
    by (simp add: t)
  from miss h2 h3 have cached: "redis_get (redis ?sys1) (now ?env2) cacheKey = Some ?fresh"
    by (simp add: t)
  note hit = summary_cache_aside
    [OF h4, where sys = ?sys1 and cached = ?fresh and u = "\<lparr>u_id = 7, role = Operator\<rparr>"
       and res = "\<lparr>cpu = ''50.0'', memory = ''50.0'', storage = ''50.0''\<rparr>",
     unfolded Let_def]
  from hit cached have
    "get_dashboard_summary ?env2 (ValidToken \<lparr>u_id = 7, role = Operator\<rparr>)
       \<lparr>cpu = ''50.0'', memory = ''50.0'', storage = ''50.0''\<rparr> ?sys1
     = (Respond 200 (SummaryJson ?fresh), ?sys1)"
    by blast
  with h1 h2 h3 h4 fresh show ?thesis by blast
qed

subsection \<open>Alert counts by severity\<close>

text \<open>
  Claim C8. On a cache miss, with cache and store reachable, the answer is 200 with a
  summary whose count for each severity is the number of alerts of that severity with
  \<open>acknowledged = false\<close>; they are the counts of \<^verbatim>\<open>get_alert_summary\<close>.
\<close>

theorem summary_counts_unacknowledged:
  assumes "\<not> redis_fails env" and "\<not> db_fails env"
    and "redis_get (redis sys) (now env) cacheKey = None"
  shows "\<exists>s. fst (get_dashboard_summary env (ValidToken u) res sys) = Respond 200 (SummaryJson s)
       \<and> critical (summary_alerts s)
         = length (filter (\<lambda>a. \<not> acknowledged a \<and> severity a = Critical) (alerts (db sys)))
       \<and> warning (summary_alerts s)
         = length (filter (\<lambda>a. \<not> acknowledged a \<and> severity a = Warning) (alerts (db sys)))
       \<and> info (summary_alerts s)
         = length (filter (\<lambda>a. \<not> acknowledged a \<and> severity a = Info) (alerts (db sys)))
       \<and> get_alert_summary (db sys)
         = (critical (summary_alerts s), warning (summary_alerts s), info (summary_alerts s),
            critical (summary_alerts s) + warning (summary_alerts s) + info (summary_alerts s))"
proof -
  let ?s = "build_summary (now env) res (db sys)"
  have "fst (get_dashboard_summary env (ValidToken u) res sys) = Respond 200 (SummaryJson ?s)"
    by (simp add: summary_miss [OF assms])
  moreover have "get_alert_summary (db sys)
         = (critical (summary_alerts ?s), warning (summary_alerts ?s), info (summary_alerts ?s),
            critical (summary_alerts ?s) + warning (summary_alerts ?s) + info (summary_alerts ?s))"
    by (simp add: summary_alerts_build_summary get_alert_summary_counts)
  ultimately show ?thesis
    by (intro exI [of _ ?s]) (simp add: summary_alerts_build_summary)
qed

theorem summary_counts_unacknowledged_witness:
  "\<not> redis_fails (request_at 500) \<and> \<not> db_fails (request_at 500)
   \<and> redis_get (redis (init_sql_system 0)) (now (request_at 500)) cacheKey = None
   \<and> (\<exists>s. fst (get_dashboard_summary (request_at 500) (ValidToken \<lparr>u_id = 9, role = Viewer\<rparr>)
                 \<lparr>cpu = ''41.5'', memory = ''63.0'', storage = ''12.2''\<rparr> (init_sql_system 0))
            = Respond 200 (SummaryJson s)
          \<and> critical (summary_alerts s) = 2 \<and> warning (summary_alerts s) = 1
          \<and> info (summary_alerts s) = 1)"
proof -
  let ?res = "\<lparr>cpu = ''41.5'', memory = ''63.0'', storage = ''12.2''\<rparr>"
  have h1: "\<not> redis_fails (request_at 500)" and h2: "\<not> db_fails (request_at 500)"
    by (simp_all add: request_at_def)
  have h3: "redis_get (redis (init_sql_system 0)) (now (request_at 500)) cacheKey = None"
    by (simp add: redis_get_def init_sql_system_def)
  have c: "length (filter (\<lambda>a. \<not> acknowledged a \<and> severity a = Critical)
             (alerts (db (init_sql_system 0)))) = 2"
    and w: "length (filter (\<lambda>a. \<not> acknowledged a \<and> severity a = Warning)
             (alerts (db (init_sql_system 0)))) = 1"
    and i: "length (filter (\<lambda>a. \<not> acknowledged a \<and> severity a = Info)
             (alerts (db (init_sql_system 0)))) = 1"
    by (simp_all add: init_sql_system_def init_sql_store_def init_sql_alert_def)
  from summary_counts_unacknowledged
    [OF h1 h2 h3, of "\<lparr>u_id = 9, role = Viewer\<rparr>" ?res, unfolded c w i]
  have "\<exists>s. fst (get_dashboard_summary (request_at 500) (ValidToken \<lparr>u_id = 9, role = Viewer\<rparr>)
                 ?res (init_sql_system 0))
            = Respond 200 (SummaryJson s)
          \<and> critical (summary_alerts s) = 2 \<and> warning (summary_alerts s) = 1
          \<and> info (summary_alerts s) = 1"
    by blast
  with h1 h2 h3 show ?thesis by blast
qed

subsection \<open>The server count\<close>

text \<open>
  Claim C10. On a cache miss, with cache and store reachable, \<open>totalServers\<close> is the number
  of servers whose status is \<open>online\<close>: with the servers of any other status it adds up to
  the number of rows.
\<close>

theorem total_servers_counts_online:
  assumes "\<not> redis_fails env" and "\<not> db_fails env"
    and "redis_get (redis sys) (now env) cacheKey = None"
  shows "\<exists>s. fst (get_dashboard_summary env (ValidToken u) res sys) = Respond 200 (SummaryJson s)
       \<and> totalServers s = length (filter (\<lambda>x. status x = Online) (servers (db sys)))
       \<and> totalServers s + length (filter (\<lambda>x. status x \<noteq> Online) (servers (db sys)))
         = length (servers (db sys))"
proof -
  let ?s = "build_summary (now env) res (db sys)"
  have "fst (get_dashboard_summary env (ValidToken u) res sys) = Respond 200 (SummaryJson ?s)"
    by (simp add: summary_miss [OF assms])
  moreover have "totalServers ?s = length (filter (\<lambda>x. status x = Online) (servers (db sys)))"
    by (simp add: build_summary_def count_online_servers_def Let_def)
  ultimately show ?thesis
    using sum_length_filter_compl [of "\<lambda>x. status x = Online" "servers (db sys)"]
    by (intro exI [of _ ?s]) simp
qed

theorem total_servers_counts_online_witness:
  "\<not> redis_fails (request_at 500) \<and> \<not> db_fails (request_at 500)
   \<and> redis_get (redis (init_sql_system 0)) (now (request_at 500)) cacheKey = None
   \<and> (\<exists>s. fst (get_dashboard_summary (request_at 500) (ValidToken \<lparr>u_id = 9, role = Viewer\<rparr>)
                 \<lparr>cpu = ''41.5'', memory = ''63.0'', storage = ''12.2''\<rparr> (init_sql_system 0))
            = Respond 200 (SummaryJson s)
          \<and> totalServers s = 5)
   \<and> length (servers (db (init_sql_system 0))) = 6"
proof -
  let ?res = "\<lparr>cpu = ''41.5'', memory = ''63.0'', storage = ''12.2''\<rparr>"
  have h1: "\<not> redis_fails (request_at 500)" and h2: "\<not> db_fails (request_at 500)"
    by (simp_all add: request_at_def)
  have h3: "redis_get (redis (init_sql_system 0)) (now (request_at 500)) cacheKey = None"
    by (simp add: redis_get_def init_sql_system_def)
  have n: "length (filter (\<lambda>x. status x = Online) (servers (db (init_sql_system 0)))) = 5"
    and m: "length (servers (db (init_sql_system 0))) = 6"
    by (simp_all add: init_sql_system_def init_sql_store_def sample_server_def)
  from total_servers_counts_online
    [OF h1 h2 h3, of "\<lparr>u_id = 9, role = Viewer\<rparr>" ?res, unfolded n]
  have "\<exists>s. fst (get_dashboard_summary (request_at 500) (ValidToken \<lparr>u_id = 9, role = Viewer\<rparr>)
                 ?res (init_sql_system 0))
            = Respond 200 (SummaryJson s)
          \<and> totalServers s = 5"
    by blast
  with h1 h2 h3 m show ?thesis by blast
qed

end
